theory Spec2Isabelle
  imports Complex_Main "HOL-Library.Sublist"
begin

section \<open>Numbers\<close>

text \<open>
  A JavaScript number is a binary64 value: \<open>NaN\<close>, \<open>Infinity\<close>, \<open>-Infinity\<close> or a
  finite value. A finite value is modelled by the real number it stands for. The
  operations below are the ones the loader uses (\<open>Math.min\<close>, \<open>Math.max\<close>, \<open>-\<close>,
  \<open>/\<close>, \<open>*\<close>, \<open>+\<close>, \<open><=\<close>), with their behaviour on the special values written out.
  The model has one zero. The sign of a zero shows only in a division by it, and the
  loader divides by \<open>maxX - minX\<close> and \<open>maxY - minY\<close> only, which are never the
  negative zero: a division by zero is a division by the positive zero.
\<close>

datatype number = NaN | NegInf | Num real | PosInf

fun Math_min :: "number \<Rightarrow> number \<Rightarrow> number" where
  "Math_min NaN b = NaN"
| "Math_min a NaN = NaN"
| "Math_min NegInf b = NegInf"
| "Math_min a NegInf = NegInf"
| "Math_min PosInf b = b"
| "Math_min a PosInf = a"
| "Math_min (Num a) (Num b) = Num (min a b)"

fun Math_max :: "number \<Rightarrow> number \<Rightarrow> number" where
  "Math_max NaN b = NaN"
| "Math_max a NaN = NaN"
| "Math_max PosInf b = PosInf"
| "Math_max a PosInf = PosInf"
| "Math_max NegInf b = b"
| "Math_max a NegInf = a"
| "Math_max (Num a) (Num b) = Num (max a b)"

fun num_neg :: "number \<Rightarrow> number" where
  "num_neg NaN = NaN"
| "num_neg NegInf = PosInf"
| "num_neg PosInf = NegInf"
| "num_neg (Num a) = Num (- a)"

subsection \<open>Rounding\<close>

text \<open>
  The arithmetic operations give the exact result rounded to binary64, to the nearest
  value and, of two equally near, to the one with the even significand. The finite
  binary64 values are the reals \<open>m * 2 ^ e\<close> with \<open>\<bar>m\<bar> < 2 ^ 53\<close> and
  \<open>-1074 \<le> e \<le> 971\<close>. For a magnitude \<open>x\<close> the exponent of the spacing is
  \<open>\<lfloor>log 2 x\<rfloor> - 52\<close>, and \<open>-1074\<close> below the normal range; the magnitude is rounded
  to a multiple of \<open>2\<close> to that exponent; a rounded magnitude of \<open>2 ^ 1024\<close> or more
  is an overflow, and the result is infinite.
\<close>

definition round_half_even :: "real \<Rightarrow> int" where
  "round_half_even q =
     (let f = \<lfloor>q\<rfloor> in
      if q - of_int f < 1 / 2 then f
      else if 1 / 2 < q - of_int f then f + 1
      else if even f then f else f + 1)"

definition binary64_exponent :: "real \<Rightarrow> int" where
  "binary64_exponent x = max (\<lfloor>log 2 x\<rfloor> - 52) (- 1074)"

definition nearest_magnitude :: "real \<Rightarrow> real" where
  "nearest_magnitude x =
     (let e = binary64_exponent x
      in of_int (round_half_even (x / 2 powr of_int e)) * 2 powr of_int e)"

definition round_magnitude :: "real \<Rightarrow> number" where
  "round_magnitude x =
     (let v = nearest_magnitude x in if 2 ^ 1024 \<le> v then PosInf else Num v)"

definition round64 :: "real \<Rightarrow> number" where
  "round64 x = (if x < 0 then num_neg (round_magnitude (- x)) else round_magnitude x)"

subsection \<open>Arithmetic\<close>

fun num_add :: "number \<Rightarrow> number \<Rightarrow> number" where
  "num_add NaN b = NaN"
| "num_add a NaN = NaN"
| "num_add PosInf NegInf = NaN"
| "num_add NegInf PosInf = NaN"
| "num_add PosInf b = PosInf"
| "num_add a PosInf = PosInf"
| "num_add NegInf b = NegInf"
| "num_add a NegInf = NegInf"
| "num_add (Num a) (Num b) = round64 (a + b)"

definition num_sub :: "number \<Rightarrow> number \<Rightarrow> number" where
  "num_sub a b = num_add a (num_neg b)"

fun num_mul :: "number \<Rightarrow> number \<Rightarrow> number" where
  "num_mul NaN b = NaN"
| "num_mul a NaN = NaN"
| "num_mul PosInf PosInf = PosInf"
| "num_mul PosInf NegInf = NegInf"
| "num_mul NegInf PosInf = NegInf"
| "num_mul NegInf NegInf = PosInf"
| "num_mul PosInf (Num b) = (if b = 0 then NaN else if 0 < b then PosInf else NegInf)"
| "num_mul NegInf (Num b) = (if b = 0 then NaN else if 0 < b then NegInf else PosInf)"
| "num_mul (Num a) PosInf = (if a = 0 then NaN else if 0 < a then PosInf else NegInf)"
| "num_mul (Num a) NegInf = (if a = 0 then NaN else if 0 < a then NegInf else PosInf)"
| "num_mul (Num a) (Num b) = round64 (a * b)"

fun num_div :: "number \<Rightarrow> number \<Rightarrow> number" where
  "num_div NaN b = NaN"
| "num_div a NaN = NaN"
| "num_div PosInf PosInf = NaN"
| "num_div PosInf NegInf = NaN"
| "num_div NegInf PosInf = NaN"
| "num_div NegInf NegInf = NaN"
| "num_div PosInf (Num b) = (if 0 \<le> b then PosInf else NegInf)"
| "num_div NegInf (Num b) = (if 0 \<le> b then NegInf else PosInf)"
| "num_div (Num a) PosInf = Num 0"
| "num_div (Num a) NegInf = Num 0"
| "num_div (Num a) (Num b) =
     (if b \<noteq> 0 then round64 (a / b)
      else if 0 < a then PosInf else if a < 0 then NegInf else NaN)"

fun num_le :: "number \<Rightarrow> number \<Rightarrow> bool" where
  "num_le NaN b = False"
| "num_le a NaN = False"
| "num_le NegInf b = True"
| "num_le a PosInf = True"
| "num_le PosInf b = False"
| "num_le a NegInf = False"
| "num_le (Num a) (Num b) = (a \<le> b)"

section \<open>Geometry utilities\<close>

type_synonym point = "number \<times> number"

subsection \<open>\<open>dedupePoints\<close>\<close>

text \<open>
  The key of a point is \<open>'' + x + ',' + y\<close>. The conversion of a number to its
  string is the language's, not the loader's, so it is the parameter \<open>toStr\<close>.
\<close>

definition point_key :: "(number \<Rightarrow> string) \<Rightarrow> point \<Rightarrow> string" where
  "point_key toStr pnt = (case pnt of (x, y) \<Rightarrow> [] @ toStr x @ '','' @ toStr y)"

text \<open>The loop over \<open>points\<close>; its state is the set \<open>seen\<close> and the array \<open>ret\<close>.\<close>

fun dedupe_loop ::
  "(number \<Rightarrow> string) \<Rightarrow> point list \<Rightarrow> string set \<times> point list \<Rightarrow> string set \<times> point list"
where
  "dedupe_loop toStr [] (seen, ret) = (seen, ret)"
| "dedupe_loop toStr (pnt # rest) (seen, ret) =
     (let key = point_key toStr pnt in
      if key \<in> seen then dedupe_loop toStr rest (seen, ret)
      else dedupe_loop toStr rest (insert key seen, ret @ [pnt]))"

definition dedupePoints :: "(number \<Rightarrow> string) \<Rightarrow> point list \<Rightarrow> point list" where
  "dedupePoints toStr points = snd (dedupe_loop toStr points ({}, []))"

text \<open>
  The same function over a store of arrays, to speak about mutation. An array reference
  is a position of the store; \<open>ret = []\<close> allocates a new array at the end of the
  store and \<open>ret.push(pnt)\<close> writes to the store. The \<open>for ... of\<close> loop reads the
  live array \<open>points\<close> by index until the index reaches its current length, so the
  loop is a partial function: it returns \<open>None\<close> where it would not end.
\<close>

type_synonym store = "point list list"

definition new_array :: "store \<Rightarrow> store \<times> nat" where
  "new_array st = (st @ [[]], length st)"

definition push :: "store \<Rightarrow> nat \<Rightarrow> point \<Rightarrow> store" where
  "push st a pnt = st[a := st ! a @ [pnt]]"

partial_function (option) dedupe_iter ::
  "(number \<Rightarrow> string) \<Rightarrow> nat \<Rightarrow> nat \<Rightarrow> nat \<Rightarrow> string set \<Rightarrow> store \<Rightarrow> store option"
where
  "dedupe_iter toStr points ret i seen st =
     (if i < length (st ! points) then
        (let pnt = st ! points ! i; key = point_key toStr pnt in
         if key \<in> seen then dedupe_iter toStr points ret (i + 1) seen st
         else dedupe_iter toStr points ret (i + 1) (insert key seen) (push st ret pnt))
      else Some st)"

definition dedupePoints_store :: "(number \<Rightarrow> string) \<Rightarrow> store \<Rightarrow> nat \<Rightarrow> (store \<times> nat) option" where
  "dedupePoints_store toStr st points =
     (case new_array st of (st1, ret) \<Rightarrow>
        (case dedupe_iter toStr points ret 0 {} st1 of
           None \<Rightarrow> None
         | Some st2 \<Rightarrow> Some (st2, ret)))"

subsection \<open>\<open>pointsExtent\<close>\<close>

record extent =
  minX :: number
  minY :: number
  maxX :: number
  maxY :: number

text \<open>The loop of \<open>pointsExtent\<close>: one pass updating the four running bounds.\<close>

fun extent_loop :: "point list \<Rightarrow> extent \<Rightarrow> extent" where
  "extent_loop [] bnd = bnd"
| "extent_loop ((x, y) # rest) bnd =
     extent_loop rest
       \<lparr>minX = Math_min (minX bnd) x, minY = Math_min (minY bnd) y,
        maxX = Math_max (maxX bnd) x, maxY = Math_max (maxY bnd) y\<rparr>"

definition pointsExtent :: "point list \<Rightarrow> extent" where
  "pointsExtent points =
     extent_loop points \<lparr>minX = PosInf, minY = PosInf, maxX = NegInf, maxY = NegInf\<rparr>"


subsection \<open>\<open>scalePoints\<close>\<close>

text \<open>
  \<open>offX\<close> and \<open>offY\<close> are optional: \<open>None\<close> is the argument left out, which takes the
  default (\<open>0\<close> for \<open>offX\<close>, the value of \<open>offX\<close> for \<open>offY\<close>).
\<close>

definition scalePoints ::
  "point list \<Rightarrow> number \<Rightarrow> number \<Rightarrow> number option \<Rightarrow> number option \<Rightarrow> point list"
where
  "scalePoints points width height offX_arg offY_arg =
     (let offX = (case offX_arg of None \<Rightarrow> Num 0 | Some v \<Rightarrow> v);
          offY = (case offY_arg of None \<Rightarrow> offX | Some v \<Rightarrow> v);
          bnd = pointsExtent points;
          curWidth = num_sub (maxX bnd) (minX bnd);
          curHeight = num_sub (maxY bnd) (minY bnd);
          scaleX = num_div width curWidth;
          scaleY = num_div height curHeight;
          scale = Math_min scaleX scaleY
      in map (\<lambda>(x, y).
                (num_add (num_mul (num_sub x (minX bnd)) scale) offX,
                 num_add (num_mul (num_sub y (minY bnd)) scale) offY))
             points)"

section \<open>Geometry utilities of the second copy\<close>

text \<open>
  The repository holds the loader a second time, with the class named \<open>Test\<close> and a
  \<open>console.log\<close> in \<open>dedupePoints\<close>. Its functions are transcribed here under the
  same names with the suffix \<open>_2\<close>. What is written to the console is returned
  beside the result, one pair per \<open>console.log('dup', n)\<close>.
\<close>

type_synonym console = "(string \<times> int) list"

fun dedupe_loop_2 ::
  "(number \<Rightarrow> string) \<Rightarrow> point list \<Rightarrow> string set \<times> point list \<Rightarrow> string set \<times> point list"
where
  "dedupe_loop_2 toStr [] (seen, ret) = (seen, ret)"
| "dedupe_loop_2 toStr (pnt # rest) (seen, ret) =
     (let key = (case pnt of (x, y) \<Rightarrow> [] @ toStr x @ '','' @ toStr y) in
      if key \<in> seen then dedupe_loop_2 toStr rest (seen, ret)
      else dedupe_loop_2 toStr rest (insert key seen, ret @ [pnt]))"

definition dedupePoints_2 :: "(number \<Rightarrow> string) \<Rightarrow> point list \<Rightarrow> point list \<times> console" where
  "dedupePoints_2 toStr points =
     (case dedupe_loop_2 toStr points ({}, []) of
        (seen, ret) \<Rightarrow> (ret, [(''dup'', int (length points) - int (card seen))]))"

fun extent_loop_2 :: "point list \<Rightarrow> extent \<Rightarrow> extent" where
  "extent_loop_2 [] bnd = bnd"
| "extent_loop_2 ((x, y) # rest) bnd =
     extent_loop_2 rest
       \<lparr>minX = Math_min (minX bnd) x, minY = Math_min (minY bnd) y,
        maxX = Math_max (maxX bnd) x, maxY = Math_max (maxY bnd) y\<rparr>"

definition pointsExtent_2 :: "point list \<Rightarrow> extent" where
  "pointsExtent_2 points =
     extent_loop_2 points \<lparr>minX = PosInf, minY = PosInf, maxX = NegInf, maxY = NegInf\<rparr>"

definition scalePoints_2 ::
  "point list \<Rightarrow> number \<Rightarrow> number \<Rightarrow> number option \<Rightarrow> number option \<Rightarrow> point list"
where
  "scalePoints_2 points width height offX_arg offY_arg =
     (let offX = (case offX_arg of None \<Rightarrow> Num 0 | Some v \<Rightarrow> v);
          offY = (case offY_arg of None \<Rightarrow> offX | Some v \<Rightarrow> v);
          bnd = pointsExtent_2 points;
          curWidth = num_sub (maxX bnd) (minX bnd);
          curHeight = num_sub (maxY bnd) (minY bnd);
          scaleX = num_div width curWidth;
          scaleY = num_div height curHeight;
          scale = Math_min scaleX scaleY
      in map (\<lambda>(x, y).
                (num_add (num_mul (num_sub x (minX bnd)) scale) offX,
                 num_add (num_mul (num_sub y (minY bnd)) scale) offY))
             points)"

section \<open>The loader\<close>

subsection \<open>Environment\<close>

text \<open>
  What the loader takes from the platform is collected in one record: the number to
  string conversion, \<open>fs.readFileSync\<close> (\<open>None\<close> where it throws), \<open>JSON.parse\<close>
  (\<open>None\<close> where it throws a \<open>SyntaxError\<close>), the resolution of a relative path
  against the module's own location (\<open>relapath\<close>), the \<open>pathname\<close> of a URL,
  \<open>path.relative\<close>, and the directory tree under the fixtures root as
  \<open>fs.readdirSync\<close> lists it. A URL is modelled by its string.
\<close>

datatype error = ReadError | SyntaxError | TypeError

text \<open>
  A directory entry as \<open>readdirSync\<close> with \<open>withFileTypes\<close> reports it: a regular
  file, a directory (with its own listing, \<open>None\<close> where reading it throws), or an
  entry of any other type.
\<close>

datatype dirent = File string | Directory string "dirent list option" | Other string

text \<open>
  A property of a parsed JSON object is absent (reading it gives \<open>undefined\<close>), or
  \<open>null\<close>, or a value.
\<close>

datatype 'a property = Absent | Null | Value 'a

text \<open>
  The value \<open>JSON.parse\<close> returns, read at the type the declaration file gives a
  fixture: an object with the properties \<open>points\<close>, \<open>edges\<close>, \<open>source\<close> and
  \<open>error\<close>. \<open>JNull\<close> is the JSON text \<open>null\<close>.
\<close>

record raw_fixture =
  raw_points :: "point list property"
  raw_edges :: "(nat \<times> nat) list property"
  raw_source :: "string property"
  raw_error :: "string property"

datatype json = JObject raw_fixture | JNull

record env =
  number_toString :: "number \<Rightarrow> string"
  readFileSync :: "string \<Rightarrow> string option"
  JSON_parse :: "string \<Rightarrow> json option"
  relapath :: "string \<Rightarrow> string"
  pathname :: "string \<Rightarrow> string"
  path_relative :: "string \<Rightarrow> string \<Rightarrow> string"
  readdirSync :: "dirent list option"

subsection \<open>Test records\<close>

text \<open>
  The record both classes (\<open>TestFile\<close> and \<open>Test\<close>) build. \<open>edges\<close> holds what the
  fixture had, \<open>undefined\<close> (\<open>Absent\<close>) included; \<open>source\<close> and \<open>error\<close> are a string
  or \<open>null\<close> (\<open>None\<close>).
\<close>

record TestFile =
  points :: "point list"
  edges :: "(nat \<times> nat) list property"
  source :: "string option"
  error :: "string option"
  name :: string
  extent :: extent

text \<open>\<open>.replace(/\\/g, '/')\<close>: every backslash becomes a forward slash.\<close>

definition replace_backslashes :: "string \<Rightarrow> string" where
  "replace_backslashes s = map (\<lambda>c. if c = CHR 0x5C then CHR ''/'' else c) s"

definition test_name :: "env \<Rightarrow> string \<Rightarrow> string" where
  "test_name ev pth =
     replace_backslashes
       (path_relative ev (pathname ev (relapath ev ''./files/'')) (pathname ev pth))"

text \<open>
  The defaults of the destructuring pattern, \<open>source = null\<close> and \<open>error = null\<close>:
  the default replaces \<open>undefined\<close> only.
\<close>

definition default_null :: "'a property \<Rightarrow> 'a option" where
  "default_null v = (case v of Absent \<Rightarrow> None | Null \<Rightarrow> None | Value x \<Rightarrow> Some x)"

text \<open>
  The constructor of \<open>TestFile\<close>. Destructuring \<open>null\<close> throws a \<open>TypeError\<close>. With
  \<open>points\<close> absent or \<open>null\<close>, \<open>dedupePoints(points)\<close> (when \<open>dedupe\<close>) or else
  \<open>pointsExtent(points)\<close> iterates a value that is not iterable, which throws a
  \<open>TypeError\<close>. Nothing reads \<open>edges\<close>: it is stored as it is.
\<close>

definition new_TestFile :: "env \<Rightarrow> json \<Rightarrow> string \<Rightarrow> bool \<Rightarrow> error + TestFile" where
  "new_TestFile ev ret pth dedupe =
     (case ret of
        JNull \<Rightarrow> Inl TypeError
      | JObject raw \<Rightarrow>
          (case raw_points raw of
             Absent \<Rightarrow> Inl TypeError
           | Null \<Rightarrow> Inl TypeError
           | Value pnts \<Rightarrow>
               Inr \<lparr>points = (if dedupe then dedupePoints (number_toString ev) pnts else pnts),
                    edges = raw_edges raw,
                    source = default_null (raw_source raw),
                    error = default_null (raw_error raw),
                    name = test_name ev pth,
                    extent = pointsExtent pnts\<rparr>))"

subsection \<open>Walking the directory\<close>

fun isFile :: "dirent \<Rightarrow> bool" where
  "isFile (File nm) = True"
| "isFile (Directory nm sub) = False"
| "isFile (Other nm) = False"

fun dirent_name :: "dirent \<Rightarrow> string" where
  "dirent_name (File nm) = nm"
| "dirent_name (Directory nm sub) = nm"
| "dirent_name (Other nm) = nm"

text \<open>
  \<open>collectFiles\<close>: the files of the directory itself, then those of each
  subdirectory in turn. \<open>collect_children\<close> is
  \<open>ents.filter(ent => ent.isDirectory()).map(d => collectFiles(...))\<close>; the first
  listing that throws ends the walk.
\<close>

fun collectFiles :: "string \<Rightarrow> dirent list option \<Rightarrow> error + string list"
  and collect_children :: "string \<Rightarrow> dirent list \<Rightarrow> error + string list list"
where
  "collectFiles dir None = Inl ReadError"
| "collectFiles dir (Some ents) =
     (let files = map (\<lambda>e. dir @ ''/'' @ dirent_name e) (filter isFile ents) in
      case collect_children dir ents of
        Inl e \<Rightarrow> Inl e
      | Inr children \<Rightarrow> Inr (files @ concat children))"
| "collect_children dir [] = Inr []"
| "collect_children dir (File nm # ents) = collect_children dir ents"
| "collect_children dir (Other nm # ents) = collect_children dir ents"
| "collect_children dir (Directory nm sub # ents) =
     (case collectFiles (dir @ ''/'' @ nm) sub of
        Inl e \<Rightarrow> Inl e
      | Inr fs \<Rightarrow>
          (case collect_children dir ents of
             Inl e \<Rightarrow> Inl e
           | Inr rest \<Rightarrow> Inr (fs # rest)))"

subsection \<open>Loading\<close>

definition loadFile :: "env \<Rightarrow> string \<Rightarrow> bool \<Rightarrow> error + TestFile" where
  "loadFile ev pth dedupe =
     (case readFileSync ev pth of
        None \<Rightarrow> Inl ReadError
      | Some text \<Rightarrow>
          (case JSON_parse ev text of
             None \<Rightarrow> Inl SyntaxError
           | Some ret \<Rightarrow> new_TestFile ev ret pth dedupe))"

text \<open>\<open>.map(p => loadFile(p, dedupe))\<close>: in order; the first exception ends the load.\<close>

fun load_each :: "env \<Rightarrow> bool \<Rightarrow> string list \<Rightarrow> error + TestFile list" where
  "load_each ev dedupe [] = Inr []"
| "load_each ev dedupe (p # ps) =
     (case loadFile ev p dedupe of
        Inl e \<Rightarrow> Inl e
      | Inr t \<Rightarrow>
          (case load_each ev dedupe ps of
             Inl e \<Rightarrow> Inl e
           | Inr ts \<Rightarrow> Inr (t # ts)))"

text \<open>
  The truth value of an \<open>error\<close> field, as \<open>!test.error\<close> reads it: \<open>null\<close> and the
  empty string are false, every other string is true.
\<close>

definition truthy :: "string option \<Rightarrow> bool" where
  "truthy v = (case v of None \<Rightarrow> False | Some s \<Rightarrow> s \<noteq> [])"

text \<open>\<open>loadTests\<close>; an argument left out (\<open>None\<close>) takes the default \<open>false\<close>.\<close>

definition loadTests :: "env \<Rightarrow> bool option \<Rightarrow> bool option \<Rightarrow> error + TestFile list" where
  "loadTests ev allowErrors_arg dedupe_arg =
     (let allowErrors = (case allowErrors_arg of None \<Rightarrow> False | Some b \<Rightarrow> b);
          dedupe = (case dedupe_arg of None \<Rightarrow> False | Some b \<Rightarrow> b)
      in case collectFiles (relapath ev ''./files'') (readdirSync ev) of
           Inl e \<Rightarrow> Inl e
         | Inr paths \<Rightarrow>
             (case load_each ev dedupe paths of
                Inl e \<Rightarrow> Inl e
              | Inr ret \<Rightarrow>
                  Inr (filter (\<lambda>test. if allowErrors then True else \<not> truthy (error test)) ret)))"

subsection \<open>Lookup\<close>

text \<open>\<open>s.includes(sub)\<close>: \<open>sub\<close> starts at some position of \<open>s\<close>.\<close>

fun str_includes :: "string \<Rightarrow> string \<Rightarrow> bool" where
  "str_includes [] sub = (sub = [])"
| "str_includes (c # s) sub = (prefix sub (c # s) \<or> str_includes s sub)"

text \<open>\<open>tests.find(...)\<close> gives the first match, or \<open>undefined\<close> (\<open>None\<close>).\<close>

definition findTest :: "TestFile list \<Rightarrow> string \<Rightarrow> TestFile option" where
  "findTest tests nm = find (\<lambda>t. str_includes (name t) nm) tests"

section \<open>The loader of the second copy\<close>

text \<open>
  The constructor of \<open>Test\<close>. With \<open>points\<close> absent nothing reaches the console: the
  loop of \<open>dedupePoints\<close> throws before its \<open>console.log\<close>.
\<close>

definition new_Test :: "env \<Rightarrow> json \<Rightarrow> string \<Rightarrow> bool \<Rightarrow> (error + TestFile) \<times> console" where
  "new_Test ev ret pth dedupe =
     (case ret of
        JNull \<Rightarrow> (Inl TypeError, [])
      | JObject raw \<Rightarrow>
          (case raw_points raw of
             Absent \<Rightarrow> (Inl TypeError, [])
           | Null \<Rightarrow> (Inl TypeError, [])
           | Value pnts \<Rightarrow>
               (case (if dedupe then dedupePoints_2 (number_toString ev) pnts else (pnts, [])) of
                  (this_points, out) \<Rightarrow>
                    (Inr \<lparr>points = this_points,
                          edges = raw_edges raw,
                          source = default_null (raw_source raw),
                          error = default_null (raw_error raw),
                          name = test_name ev pth,
                          extent = pointsExtent_2 pnts\<rparr>, out))))"

fun collectFiles_2 :: "string \<Rightarrow> dirent list option \<Rightarrow> error + string list"
  and collect_children_2 :: "string \<Rightarrow> dirent list \<Rightarrow> error + string list list"
where
  "collectFiles_2 dir None = Inl ReadError"
| "collectFiles_2 dir (Some ents) =
     (let files = map (\<lambda>e. dir @ ''/'' @ dirent_name e) (filter isFile ents) in
      case collect_children_2 dir ents of
        Inl e \<Rightarrow> Inl e
      | Inr children \<Rightarrow> Inr (files @ concat children))"
| "collect_children_2 dir [] = Inr []"
| "collect_children_2 dir (File nm # ents) = collect_children_2 dir ents"
| "collect_children_2 dir (Other nm # ents) = collect_children_2 dir ents"
| "collect_children_2 dir (Directory nm sub # ents) =
     (case collectFiles_2 (dir @ ''/'' @ nm) sub of
        Inl e \<Rightarrow> Inl e
      | Inr fs \<Rightarrow>
          (case collect_children_2 dir ents of
             Inl e \<Rightarrow> Inl e
           | Inr rest \<Rightarrow> Inr (fs # rest)))"

definition loadFile_2 :: "env \<Rightarrow> string \<Rightarrow> bool \<Rightarrow> (error + TestFile) \<times> console" where
  "loadFile_2 ev pth dedupe =
     (case readFileSync ev pth of
        None \<Rightarrow> (Inl ReadError, [])
      | Some text \<Rightarrow>
          (case JSON_parse ev text of
             None \<Rightarrow> (Inl SyntaxError, [])
           | Some ret \<Rightarrow> new_Test ev ret pth dedupe))"

text \<open>The console output of the files loaded so far stays when a later file throws.\<close>

fun load_each_2 :: "env \<Rightarrow> bool \<Rightarrow> string list \<Rightarrow> (error + TestFile list) \<times> console" where
  "load_each_2 ev dedupe [] = (Inr [], [])"
| "load_each_2 ev dedupe (p # ps) =
     (case loadFile_2 ev p dedupe of
        (Inl e, out) \<Rightarrow> (Inl e, out)
      | (Inr t, out) \<Rightarrow>
          (case load_each_2 ev dedupe ps of
             (Inl e, out') \<Rightarrow> (Inl e, out @ out')
           | (Inr ts, out') \<Rightarrow> (Inr (t # ts), out @ out')))"

definition loadTests_2 ::
  "env \<Rightarrow> bool option \<Rightarrow> bool option \<Rightarrow> (error + TestFile list) \<times> console"
where
  "loadTests_2 ev allowErrors_arg dedupe_arg =
     (let allowErrors = (case allowErrors_arg of None \<Rightarrow> False | Some b \<Rightarrow> b);
          dedupe = (case dedupe_arg of None \<Rightarrow> False | Some b \<Rightarrow> b)
      in case collectFiles_2 (relapath ev ''./files'') (readdirSync ev) of
           Inl e \<Rightarrow> (Inl e, [])
         | Inr paths \<Rightarrow>
             (case load_each_2 ev dedupe paths of
                (Inl e, out) \<Rightarrow> (Inl e, out)
              | (Inr ret, out) \<Rightarrow>
                  (Inr (filter (\<lambda>test. if allowErrors then True else \<not> truthy (error test)) ret),
                   out)))"

definition findTest_2 :: "TestFile list \<Rightarrow> string \<Rightarrow> TestFile option" where
  "findTest_2 tests nm = find (\<lambda>t. str_includes (name t) nm) tests"

section \<open>An example platform\<close>

text \<open>
  A platform for the concrete cases below. The module lies in \<open>file:///repo/\<close>; the
  fixtures root holds the regular file \<open>a.json\<close> with the given text, an entry that
  is neither a file nor a directory, and an empty subdirectory. \<open>JSON.parse\<close> maps
  the text of the file to the given value. Numbers print as \<open>0\<close> or \<open>1\<close>.
\<close>

definition example_env :: "string \<Rightarrow> json \<Rightarrow> env" where
  "example_env text parsed =
     \<lparr>number_toString = (\<lambda>n. if n = Num 0 then ''0'' else ''1''),
      readFileSync = (\<lambda>p. if p = ''file:///repo/files/a.json'' then Some text else None),
      JSON_parse = (\<lambda>s. if s = text then Some parsed else None),
      relapath = (\<lambda>p. ''file:///repo/'' @ drop 2 p),
      pathname = drop 7,
      path_relative = (\<lambda>from to. drop (length from) to),
      readdirSync = Some [File ''a.json'', Other ''link'', Directory ''sub'' (Some [])]\<rparr>"

section \<open>Properties\<close>

subsection \<open>Rounding is monotone and exact on binary64 values\<close>

lemma round_half_even_of_int [simp]: "round_half_even (of_int n) = n"
  by (simp add: round_half_even_def)

lemma round_half_even_zero [simp]: "round_half_even 0 = 0"
  using round_half_even_of_int [of 0] by simp

lemma round_half_even_bounds: "\<lfloor>q\<rfloor> \<le> round_half_even q" "round_half_even q \<le> \<lfloor>q\<rfloor> + 1"
  by (simp_all add: round_half_even_def Let_def)

lemma round_half_even_mono:
  assumes "q \<le> q'"
  shows "round_half_even q \<le> round_half_even q'"
proof (cases "\<lfloor>q\<rfloor> = \<lfloor>q'\<rfloor>")
  case True
  with assms show ?thesis
    by (auto simp: round_half_even_def Let_def)
next
  case False
  with assms have "\<lfloor>q\<rfloor> + 1 \<le> \<lfloor>q'\<rfloor>"
    using floor_mono [of q q'] by linarith
  with round_half_even_bounds(2) [of q] round_half_even_bounds(1) [of q'] show ?thesis
    by linarith
qed

lemma round_half_even_le_int: "q \<le> of_int n \<Longrightarrow> round_half_even q \<le> n"
  using round_half_even_mono [of q "of_int n"] by simp

lemma round_half_even_ge_int: "of_int n \<le> q \<Longrightarrow> n \<le> round_half_even q"
  using round_half_even_mono [of "of_int n" q] by simp

lemma binary64_exponent_mono:
  assumes "0 < x" "x \<le> y"
  shows "binary64_exponent x \<le> binary64_exponent y"
proof -
  have "log 2 x \<le> log 2 y" using assms by simp
  then have "\<lfloor>log 2 x\<rfloor> \<le> \<lfloor>log 2 y\<rfloor>" by (rule floor_mono)
  then show ?thesis by (simp add: binary64_exponent_def)
qed

lemma nearest_magnitude_mono_pos:
  assumes "0 < x" "x \<le> y"
  shows "nearest_magnitude x \<le> nearest_magnitude y"
proof (cases "binary64_exponent x = binary64_exponent y")
  case True
  have "x / 2 powr of_int (binary64_exponent y) \<le> y / 2 powr of_int (binary64_exponent y)"
    using assms by (simp add: divide_right_mono)
  then have "round_half_even (x / 2 powr of_int (binary64_exponent y)) \<le>
      round_half_even (y / 2 powr of_int (binary64_exponent y))"
    by (rule round_half_even_mono)
  then show ?thesis
    unfolding nearest_magnitude_def Let_def True by (simp add: mult_right_mono)
next
  case False
  let ?ex = "binary64_exponent x" and ?ey = "binary64_exponent y"
  let ?vx = "nearest_magnitude x" and ?vy = "nearest_magnitude y"
  have lt: "?ex < ?ey"
    using False binary64_exponent_mono [OF assms] by simp
  define k where "k = ?ey + 52"
  have y0: "0 < y" using assms by simp
  have "- 1074 \<le> ?ex" by (simp add: binary64_exponent_def)
  with lt have ey: "?ey = \<lfloor>log 2 y\<rfloor> - 52"
    by (simp add: binary64_exponent_def max_def split: if_splits)
  then have "real_of_int k \<le> log 2 y"
    unfolding k_def by simp
  then have ky: "(2::real) powr of_int k \<le> y"
    using y0 by (simp add: le_log_iff)
  have "\<lfloor>log 2 x\<rfloor> - 52 \<le> ?ex" by (simp add: binary64_exponent_def)
  with lt have "\<lfloor>log 2 x\<rfloor> < k" unfolding k_def by linarith
  then have "log 2 x < real_of_int k" by linarith
  then have xk: "x < 2 powr of_int k"
    using assms(1) by (simp add: log_less_iff)
  \<comment> \<open>the upper value is at least \<open>2 powr k\<close>\<close>
  have "2 powr of_int k / 2 powr of_int ?ey \<le> y / 2 powr of_int ?ey"
    using ky by (simp add: divide_right_mono)
  moreover have "(2::real) powr of_int k / 2 powr of_int ?ey = of_int ((2::int) ^ 52)"
    unfolding k_def by (simp add: powr_diff [symmetric])
  ultimately have "(2::int) ^ 52 \<le> round_half_even (y / 2 powr of_int ?ey)"
    by (intro round_half_even_ge_int) simp
  then have "(2::real) ^ 52 \<le> of_int (round_half_even (y / 2 powr of_int ?ey))"
    by (metis of_int_le_iff of_int_numeral of_int_power)
  then have "2 ^ 52 * 2 powr of_int ?ey \<le> ?vy"
    unfolding nearest_magnitude_def Let_def by (simp add: mult_right_mono)
  moreover have "(2::real) ^ 52 * 2 powr of_int ?ey = 2 powr of_int k"
    unfolding k_def by (simp add: powr_add)
  ultimately have upper: "(2::real) powr of_int k \<le> ?vy" by simp
  \<comment> \<open>the lower value is at most \<open>2 powr k\<close>\<close>
  have d: "0 \<le> k - ?ex" using lt unfolding k_def by simp
  have "x / 2 powr of_int ?ex \<le> 2 powr of_int k / 2 powr of_int ?ex"
    using xk by (simp add: divide_right_mono)
  moreover have "(2::real) powr of_int k / 2 powr of_int ?ex = of_int ((2::int) ^ nat (k - ?ex))"
  proof -
    have "(2::real) powr of_int k / 2 powr of_int ?ex = 2 powr of_int (k - ?ex)"
      by (simp add: powr_diff)
    also have "\<dots> = 2 powr real (nat (k - ?ex))"
      using d by simp
    also have "\<dots> = 2 ^ nat (k - ?ex)"
      by (simp add: powr_realpow)
    finally show ?thesis by simp
  qed
  ultimately have "round_half_even (x / 2 powr of_int ?ex) \<le> (2::int) ^ nat (k - ?ex)"
    by (intro round_half_even_le_int) simp
  then have "of_int (round_half_even (x / 2 powr of_int ?ex)) \<le> (2::real) ^ nat (k - ?ex)"
    by (metis of_int_le_iff of_int_numeral of_int_power)
  then have "?vx \<le> 2 ^ nat (k - ?ex) * 2 powr of_int ?ex"
    unfolding nearest_magnitude_def Let_def by (simp add: mult_right_mono)
  moreover have "(2::real) ^ nat (k - ?ex) * 2 powr of_int ?ex = 2 powr of_int k"
  proof -
    have "(2::real) ^ nat (k - ?ex) = 2 powr real (nat (k - ?ex))"
      by (simp add: powr_realpow)
    also have "\<dots> = 2 powr of_int (k - ?ex)"
      using d by simp
    finally show ?thesis
      by (simp add: powr_add [symmetric])
  qed
  ultimately have "?vx \<le> (2::real) powr of_int k" by simp
  with upper show ?thesis by linarith
qed


lemma nearest_magnitude_zero [simp]: "nearest_magnitude 0 = 0"
  by (simp add: nearest_magnitude_def)

lemma nearest_magnitude_nonneg: "0 \<le> x \<Longrightarrow> 0 \<le> nearest_magnitude x"
  unfolding nearest_magnitude_def Let_def
  using round_half_even_ge_int [of 0 "x / 2 powr of_int (binary64_exponent x)"]
  by simp

lemma nearest_magnitude_mono:
  assumes "0 \<le> x" "x \<le> y"
  shows "nearest_magnitude x \<le> nearest_magnitude y"
proof (cases "x = 0")
  case True
  with assms show ?thesis by (simp add: nearest_magnitude_nonneg)
next
  case False
  with assms show ?thesis by (intro nearest_magnitude_mono_pos) simp_all
qed

lemma num_le_refl: "a \<noteq> NaN \<Longrightarrow> num_le a a"
  by (cases a) simp_all

lemma num_le_trans: "num_le a b \<Longrightarrow> num_le b c \<Longrightarrow> num_le a c"
  by (cases a; cases b; cases c) simp_all


lemma num_le_not_NaN: "num_le a b \<Longrightarrow> a \<noteq> NaN \<and> b \<noteq> NaN"
  by (cases a; cases b) simp_all

lemma num_le_neg: "num_le (num_neg a) (num_neg b) = num_le b a"
  by (cases a; cases b) simp_all

lemma round_magnitude_mono:
  "0 \<le> x \<Longrightarrow> x \<le> y \<Longrightarrow> num_le (round_magnitude x) (round_magnitude y)"
  using nearest_magnitude_mono [of x y] by (simp add: round_magnitude_def Let_def)

lemma round_magnitude_nonneg: "0 \<le> x \<Longrightarrow> num_le (Num 0) (round_magnitude x)"
  using nearest_magnitude_nonneg [of x] by (simp add: round_magnitude_def Let_def)

lemma round64_zero [simp]: "round64 0 = Num 0"
  by (simp add: round64_def round_magnitude_def)


lemma round64_mono:
  assumes "x \<le> y"
  shows "num_le (round64 x) (round64 y)"
proof -
  consider "0 \<le> x" | "x < 0" "0 \<le> y" | "y < 0" using assms by linarith
  then show ?thesis
  proof cases
    case 1
    with assms show ?thesis by (simp add: round64_def round_magnitude_mono)
  next
    case 2
    have "num_le (Num 0) (round_magnitude (- x))" "num_le (Num 0) (round_magnitude y)"
      using 2 by (simp_all add: round_magnitude_nonneg)
    then have "num_le (num_neg (round_magnitude (- x))) (Num 0)" "num_le (Num 0) (round_magnitude y)"
      using num_le_neg [of "round_magnitude (- x)" "Num 0"] by simp_all
    then show ?thesis
      using 2 by (simp add: round64_def) (rule num_le_trans)
  next
    case 3
    with assms have "num_le (round_magnitude (- y)) (round_magnitude (- x))"
      by (intro round_magnitude_mono) simp_all
    with 3 assms show ?thesis by (simp add: round64_def num_le_neg)
  qed
qed

lemma round64_not_NaN [simp]: "round64 x \<noteq> NaN"
  using round64_mono [of x x] num_le_not_NaN by blast

text \<open>Values that binary64 represents round to themselves.\<close>

lemma nearest_magnitude_exact:
  assumes x: "x = of_int m * 2 powr of_int e0" and m: "0 < m" "m < 2 ^ 53" and e0: "- 1074 \<le> e0"
  shows "nearest_magnitude x = x"
proof -
  let ?e = "binary64_exponent x"
  have xpos: "0 < x" using x m by simp
  have "x < 2 ^ 53 * 2 powr of_int e0"
  proof -
    have "real_of_int m < 2 ^ 53" using m(2) by (metis of_int_less_iff of_int_numeral of_int_power)
    then show ?thesis unfolding x by (simp add: mult_strict_right_mono)
  qed
  also have "\<dots> = 2 powr of_int (e0 + 53)"
    by (simp add: powr_add)
  finally have "log 2 x < of_int (e0 + 53)"
    using xpos by (simp add: log_less_iff)
  then have "\<lfloor>log 2 x\<rfloor> < e0 + 53" by linarith
  then have le: "?e \<le> e0"
    using e0 by (simp add: binary64_exponent_def)
  have "x / 2 powr of_int ?e = of_int m * 2 powr of_int (e0 - ?e)"
    unfolding x by (simp add: powr_diff)
  also have "2 powr of_int (e0 - ?e) = (2::real) powr real (nat (e0 - ?e))"
    using le by simp
  also have "\<dots> = 2 ^ nat (e0 - ?e)"
    by (simp add: powr_realpow)
  finally have "x / 2 powr of_int ?e = of_int (m * 2 ^ nat (e0 - ?e))"
    by simp
  then have "round_half_even (x / 2 powr of_int ?e) = m * 2 ^ nat (e0 - ?e)"
    by (simp only: round_half_even_of_int)
  then have "nearest_magnitude x = of_int (m * 2 ^ nat (e0 - ?e)) * 2 powr of_int ?e"
    by (simp add: nearest_magnitude_def Let_def)
  also have "\<dots> = x / 2 powr of_int ?e * 2 powr of_int ?e"
    using \<open>x / 2 powr of_int ?e = of_int (m * 2 ^ nat (e0 - ?e))\<close> by simp
  finally show ?thesis by simp
qed




lemma nearest_magnitude_binade:
  assumes "2 powr of_int k \<le> x" "x < 2 powr of_int (k + 1)" "- 1022 \<le> k"
  shows "nearest_magnitude x =
     of_int (round_half_even (x / 2 powr of_int (k - 52))) * 2 powr of_int (k - 52)"
proof -
  have "0 < (2::real) powr of_int k" by simp
  with assms(1) have "0 < x" by linarith
  then have "\<lfloor>log 2 x\<rfloor> = k"
    using assms(1,2) by (simp add: floor_log_eq_powr_iff)
  then have "binary64_exponent x = k - 52"
    using assms(3) by (simp add: binary64_exponent_def)
  then show ?thesis by (simp add: nearest_magnitude_def)
qed

lemma round64_overflow: "2 ^ 1024 \<le> x \<Longrightarrow> round64 x = PosInf"
proof -
  assume x: "2 ^ 1024 \<le> x"
  have "nearest_magnitude (2 ^ 1024) = 2 ^ 1024"
    by (rule nearest_magnitude_exact [of _ 1 1024]) (simp_all add: powr_numeral)
  with nearest_magnitude_mono [of "2 ^ 1024" x] x have big: "2 ^ 1024 \<le> nearest_magnitude x"
    by simp
  have "(0::real) < 2 ^ 1024" by simp
  with x have "\<not> x < 0" by linarith
  with big show ?thesis
    by (simp add: round64_def round_magnitude_def)
qed

lemma nearest_magnitude_scaled:
  fixes n :: nat
  assumes "2 ^ 52 \<le> x * 2 ^ n" "x * 2 ^ n < 2 ^ 53" "n \<le> 1074"
  shows "nearest_magnitude x = of_int (round_half_even (x * 2 ^ n)) / 2 ^ n"
proof -
  have p: "(2::real) powr of_int (- int n) = 1 / 2 ^ n"
    by (simp add: powr_minus powr_realpow inverse_eq_divide)
  have "(2::real) powr (52 + of_int (- int n)) = 2 powr 52 * 2 powr of_int (- int n)"
    by (rule powr_add)
  then have "(2::real) powr of_int (52 - int n) = 2 ^ 52 / 2 ^ n"
    unfolding p by simp
  moreover have "(2::real) ^ 52 / 2 ^ n \<le> x"
    using assms(1) by (simp add: pos_divide_le_eq)
  ultimately have lo: "2 powr of_int (52 - int n) \<le> x" by simp
  have "(2::real) powr (53 + of_int (- int n)) = 2 powr 53 * 2 powr of_int (- int n)"
    by (rule powr_add)
  then have "(2::real) powr of_int (52 - int n + 1) = 2 ^ 53 / 2 ^ n"
    unfolding p by (simp add: algebra_simps)
  moreover have "x < (2::real) ^ 53 / 2 ^ n"
    using assms(2) by (simp add: pos_less_divide_eq)
  ultimately have hi: "x < 2 powr of_int (52 - int n + 1)" by simp
  have "nearest_magnitude x =
      of_int (round_half_even (x / 2 powr of_int (52 - int n - 52))) *
        2 powr of_int (52 - int n - 52)"
    using lo hi assms(3) by (intro nearest_magnitude_binade) simp_all
  then show ?thesis
    using p by simp
qed

lemma round64_scaled:
  fixes n :: nat
  assumes "2 ^ 52 \<le> x * 2 ^ n" "x * 2 ^ n < 2 ^ 53" "n \<le> 1074"
  shows "round64 x = Num (of_int (round_half_even (x * 2 ^ n)) / 2 ^ n)"
proof -
  have v: "nearest_magnitude x = of_int (round_half_even (x * 2 ^ n)) / 2 ^ n"
    using assms by (rule nearest_magnitude_scaled)
  have "(0::real) < 2 ^ 52" by simp
  with assms(1) have "0 < x * 2 ^ n" by linarith
  then have x: "0 < x" by (simp add: zero_less_mult_iff)
  have "round_half_even (x * 2 ^ n) \<le> 2 ^ 53"
    using assms(2) by (intro round_half_even_le_int) simp
  then have "real_of_int (round_half_even (x * 2 ^ n)) \<le> 2 ^ 53"
    by (metis of_int_le_iff of_int_numeral of_int_power)
  then have "real_of_int (round_half_even (x * 2 ^ n)) / 2 ^ n \<le> 2 ^ 53 / 2 ^ n"
    by (simp add: divide_right_mono)
  moreover have "(2::real) ^ 53 / 2 ^ n \<le> 2 ^ 53"
    by (simp add: pos_divide_le_eq)
  ultimately have "real_of_int (round_half_even (x * 2 ^ n)) / 2 ^ n \<le> 2 ^ 53"
    by linarith
  moreover have "(2::real) ^ 53 < 2 ^ 1024" by simp
  ultimately have "\<not> 2 ^ 1024 \<le> nearest_magnitude x"
    unfolding v by linarith
  then show ?thesis
    using x v by (simp add: round64_def round_magnitude_def)
qed

text \<open>The arithmetic at some values: rounding up, rounding to even, overflow.\<close>

lemma binary64_examples:
  "num_mul (Num 7) (num_div (Num 29) (Num 7)) = Num (29 + 1 / 2 ^ 48)"
  "num_add (Num (2 ^ 1023)) (Num (2 ^ 1023)) = PosInf"
  "num_div (Num (10 ^ 308)) (Num (1 / 10 ^ 10)) = PosInf"
  "num_add (Num 1) (Num (1 / 2 ^ 53)) = Num 1"
  "num_add (Num 1) (Num (3 / 2 ^ 53)) = Num (1 + 1 / 2 ^ 51)"
proof -
  have a: "round64 (29 / 7) = Num (4664442471205157 / 2 ^ 50)"
    by (subst round64_scaled [of _ 50]) (simp_all add: round_half_even_def)
  have b: "round64 (7 * (4664442471205157 / 2 ^ 50)) = Num (29 + 1 / 2 ^ 48)"
    by (subst round64_scaled [of _ 48]) (simp_all add: round_half_even_def)
  show "num_mul (Num 7) (num_div (Num 29) (Num 7)) = Num (29 + 1 / 2 ^ 48)"
    by (simp add: a [simplified] b [simplified])
  have "round64 (2 ^ 1023 + 2 ^ 1023) = PosInf"
    by (rule round64_overflow) simp
  then show "num_add (Num (2 ^ 1023)) (Num (2 ^ 1023)) = PosInf"
    by simp
  have "round64 (10 ^ 308 / (1 / 10 ^ 10)) = PosInf"
    by (rule round64_overflow) simp
  then show "num_div (Num (10 ^ 308)) (Num (1 / 10 ^ 10)) = PosInf"
    by simp
  have "round64 (1 + 1 / 2 ^ 53) = Num 1"
    by (subst round64_scaled [of _ 52]) (simp_all add: round_half_even_def)
  then show "num_add (Num 1) (Num (1 / 2 ^ 53)) = Num 1"
    by simp
  have "round64 (1 + 3 / 2 ^ 53) = Num (1 + 1 / 2 ^ 51)"
    by (subst round64_scaled [of _ 52]) (simp_all add: round_half_even_def)
  then show "num_add (Num 1) (Num (3 / 2 ^ 53)) = Num (1 + 1 / 2 ^ 51)"
    by simp
qed

subsection \<open>\<open>pointsExtent\<close>\<close>

lemma Math_min_props:
  assumes "a \<noteq> NaN" "b \<noteq> NaN"
  shows "Math_min a b \<noteq> NaN" "num_le (Math_min a b) a" "num_le (Math_min a b) b"
    "Math_min a b = a \<or> Math_min a b = b"
  using assms by (cases a; cases b; simp add: min_def)+

lemma Math_max_props:
  assumes "a \<noteq> NaN" "b \<noteq> NaN"
  shows "Math_max a b \<noteq> NaN" "num_le a (Math_max a b)" "num_le b (Math_max a b)"
    "Math_max a b = a \<or> Math_max a b = b"
  using assms by (cases a; cases b; simp add: max_def)+

lemma Math_min_NaN: "Math_min a b = NaN \<longleftrightarrow> a = NaN \<or> b = NaN"
  by (cases a; cases b) simp_all

lemma Math_max_NaN: "Math_max a b = NaN \<longleftrightarrow> a = NaN \<or> b = NaN"
  by (cases a; cases b) simp_all

lemma pointsExtent_folds:
  "extent_loop P bnd =
     \<lparr>minX = fold (\<lambda>x m. Math_min m x) (map fst P) (minX bnd),
      minY = fold (\<lambda>y m. Math_min m y) (map snd P) (minY bnd),
      maxX = fold (\<lambda>x m. Math_max m x) (map fst P) (maxX bnd),
      maxY = fold (\<lambda>y m. Math_max m y) (map snd P) (maxY bnd)\<rparr>"
  by (induction P bnd rule: extent_loop.induct) simp_all


lemma fold_Math_max_NaN:
  "fold (\<lambda>x m. Math_max m x) xs m0 = NaN \<longleftrightarrow> m0 = NaN \<or> NaN \<in> set xs"
  by (induction xs arbitrary: m0) (auto simp: Math_max_NaN)

lemma fold_Math_min_props:
  assumes "NaN \<notin> set xs" "m0 \<noteq> NaN"
  shows "num_le (fold (\<lambda>x m. Math_min m x) xs m0) m0"
    "\<forall>x \<in> set xs. num_le (fold (\<lambda>x m. Math_min m x) xs m0) x"
    "fold (\<lambda>x m. Math_min m x) xs m0 = m0 \<or> fold (\<lambda>x m. Math_min m x) xs m0 \<in> set xs"
  using assms
proof (induction xs arbitrary: m0)
  case Nil
  {
    case 1 then show ?case by (simp add: num_le_refl)
  next
    case 2 show ?case by simp
  next
    case 3 show ?case by simp
  }
next
  case (Cons x xs)
  {
    case 1
    then have n: "x \<noteq> NaN" "NaN \<notin> set xs" "Math_min m0 x \<noteq> NaN"
      by (auto simp: Math_min_NaN)
    from Cons.IH(1) [OF n(2,3)] Math_min_props(2) [OF 1(2) n(1)] show ?case
      by (auto intro: num_le_trans)
  next
    case 2
    then have n: "x \<noteq> NaN" "NaN \<notin> set xs" "Math_min m0 x \<noteq> NaN"
      by (auto simp: Math_min_NaN)
    from Cons.IH(1) [OF n(2,3)] Cons.IH(2) [OF n(2,3)] Math_min_props(3) [OF 2(2) n(1)]
    show ?case
      by (auto intro: num_le_trans)
  next
    case 3
    then have n: "x \<noteq> NaN" "NaN \<notin> set xs" "Math_min m0 x \<noteq> NaN"
      by (auto simp: Math_min_NaN)
    from Cons.IH(3) [OF n(2,3)] Math_min_props(4) [OF 3(2) n(1)] show ?case
      by auto
  }
qed

lemma fold_Math_max_props:
  assumes "NaN \<notin> set xs" "m0 \<noteq> NaN"
  shows "num_le m0 (fold (\<lambda>x m. Math_max m x) xs m0)"
    "\<forall>x \<in> set xs. num_le x (fold (\<lambda>x m. Math_max m x) xs m0)"
    "fold (\<lambda>x m. Math_max m x) xs m0 = m0 \<or> fold (\<lambda>x m. Math_max m x) xs m0 \<in> set xs"
  using assms
proof (induction xs arbitrary: m0)
  case Nil
  {
    case 1 then show ?case by (simp add: num_le_refl)
  next
    case 2 show ?case by simp
  next
    case 3 show ?case by simp
  }
next
  case (Cons x xs)
  {
    case 1
    then have n: "x \<noteq> NaN" "NaN \<notin> set xs" "Math_max m0 x \<noteq> NaN"
      by (auto simp: Math_max_NaN)
    from Cons.IH(1) [OF n(2,3)] Math_max_props(2) [OF 1(2) n(1)] show ?case
      by (auto intro: num_le_trans)
  next
    case 2
    then have n: "x \<noteq> NaN" "NaN \<notin> set xs" "Math_max m0 x \<noteq> NaN"
      by (auto simp: Math_max_NaN)
    from Cons.IH(1) [OF n(2,3)] Cons.IH(2) [OF n(2,3)] Math_max_props(3) [OF 2(2) n(1)]
    show ?case
      by (auto intro: num_le_trans)
  next
    case 3
    then have n: "x \<noteq> NaN" "NaN \<notin> set xs" "Math_max m0 x \<noteq> NaN"
      by (auto simp: Math_max_NaN)
    from Cons.IH(3) [OF n(2,3)] Math_max_props(4) [OF 3(2) n(1)] show ?case
      by auto
  }
qed

text \<open>The least and the greatest of a non-empty list without \<open>NaN\<close>.\<close>

lemma fold_Math_min_least:
  assumes "xs \<noteq> []" "NaN \<notin> set xs"
  shows "fold (\<lambda>x m. Math_min m x) xs PosInf \<in> set xs"
    "\<forall>x \<in> set xs. num_le (fold (\<lambda>x m. Math_min m x) xs PosInf) x"
proof -
  let ?m = "fold (\<lambda>x m. Math_min m x) xs PosInf"
  show b: "\<forall>x \<in> set xs. num_le ?m x"
    using fold_Math_min_props(2) [OF assms(2), of PosInf] by simp
  obtain x where x: "x \<in> set xs" using assms(1) by (cases xs) auto
  show "?m \<in> set xs"
  proof (cases "?m = PosInf")
    case True
    with b x have "num_le PosInf x" by auto
    then have "x = PosInf" by (cases x) simp_all
    with x True show ?thesis by simp
  next
    case False
    with fold_Math_min_props(3) [OF assms(2), of PosInf] show ?thesis by simp
  qed
qed

lemma fold_Math_max_greatest:
  assumes "xs \<noteq> []" "NaN \<notin> set xs"
  shows "fold (\<lambda>x m. Math_max m x) xs NegInf \<in> set xs"
    "\<forall>x \<in> set xs. num_le x (fold (\<lambda>x m. Math_max m x) xs NegInf)"
proof -
  let ?m = "fold (\<lambda>x m. Math_max m x) xs NegInf"
  show b: "\<forall>x \<in> set xs. num_le x ?m"
    using fold_Math_max_props(2) [OF assms(2), of NegInf] by simp
  obtain x where x: "x \<in> set xs" using assms(1) by (cases xs) auto
  show "?m \<in> set xs"
  proof (cases "?m = NegInf")
    case True
    with b x have "num_le x NegInf" by auto
    then have "x = NegInf" by (cases x) simp_all
    with x True show ?thesis by simp
  next
    case False
    with fold_Math_max_props(3) [OF assms(2), of NegInf] show ?thesis by simp
  qed
qed

text \<open>
  Claim C6 as stated fails: \<open>Math.min\<close> and \<open>Math.max\<close> return \<open>NaN\<close> when an
  argument is \<open>NaN\<close>, so one \<open>NaN\<close> coordinate makes both bounds of its axis \<open>NaN\<close>,
  and \<open>NaN\<close> is not below or equal to any coordinate.
\<close>

theorem pointsExtent_NaN_counterexample:
  "pointsExtent [(NaN, Num 1), (Num 2, Num 3)] =
     \<lparr>minX = NaN, minY = Num 1, maxX = NaN, maxY = Num 3\<rparr> \<and>
   \<not> num_le (minX (pointsExtent [(NaN, Num 1), (Num 2, Num 3)])) (Num 2)"
  by (simp add: pointsExtent_def)

text \<open>
  Claim C6, amended. For every non-empty point sequence \<open>P\<close> none of whose
  coordinates is \<open>NaN\<close> (infinite coordinates are allowed), the extent
  \<open>pointsExtent\<close> returns has \<open>minX\<close> and \<open>minY\<close> below or equal to every x and every
  y coordinate of \<open>P\<close>, \<open>maxX\<close> and \<open>maxY\<close> above or equal to them, and each of the four
  bounds is the corresponding coordinate of some point of \<open>P\<close>.
\<close>

theorem pointsExtent_bounds:
  "P \<noteq> [] \<Longrightarrow> \<forall>(x, y) \<in> set P. x \<noteq> NaN \<and> y \<noteq> NaN \<Longrightarrow>
   (let e = pointsExtent P in
     (\<forall>(x, y) \<in> set P.
        num_le (minX e) x \<and> num_le (minY e) y \<and> num_le x (maxX e) \<and> num_le y (maxY e)) \<and>
     (\<exists>(x, y) \<in> set P. minX e = x) \<and>
     (\<exists>(x, y) \<in> set P. minY e = y) \<and>
     (\<exists>(x, y) \<in> set P. maxX e = x) \<and>
     (\<exists>(x, y) \<in> set P. maxY e = y))"
proof -
  assume ne: "P \<noteq> []" and nan: "\<forall>(x, y) \<in> set P. x \<noteq> NaN \<and> y \<noteq> NaN"
  let ?x0 = "fold (\<lambda>x m. Math_min m x) (map fst P) PosInf"
  let ?y0 = "fold (\<lambda>y m. Math_min m y) (map snd P) PosInf"
  let ?x1 = "fold (\<lambda>x m. Math_max m x) (map fst P) NegInf"
  let ?y1 = "fold (\<lambda>y m. Math_max m y) (map snd P) NegInf"
  have e: "pointsExtent P = \<lparr>minX = ?x0, minY = ?y0, maxX = ?x1, maxY = ?y1\<rparr>"
    by (simp add: pointsExtent_def pointsExtent_folds)
  have nx: "map fst P \<noteq> []" "NaN \<notin> set (map fst P)"
    and ny: "map snd P \<noteq> []" "NaN \<notin> set (map snd P)"
    using ne nan by auto
  have "\<forall>x \<in> set (map fst P). num_le ?x0 x" "\<forall>y \<in> set (map snd P). num_le ?y0 y"
    "\<forall>x \<in> set (map fst P). num_le x ?x1" "\<forall>y \<in> set (map snd P). num_le y ?y1"
    by (rule fold_Math_min_least [OF nx] fold_Math_min_least [OF ny]
        fold_Math_max_greatest [OF nx] fold_Math_max_greatest [OF ny])+
  then have bounds: "\<forall>(x, y) \<in> set P.
      num_le ?x0 x \<and> num_le ?y0 y \<and> num_le x ?x1 \<and> num_le y ?y1"
    by (simp add: case_prod_beta)
  have "?x0 \<in> set (map fst P)" "?y0 \<in> set (map snd P)"
    "?x1 \<in> set (map fst P)" "?y1 \<in> set (map snd P)"
    by (rule fold_Math_min_least [OF nx] fold_Math_min_least [OF ny]
        fold_Math_max_greatest [OF nx] fold_Math_max_greatest [OF ny])+
  then have "?x0 \<in> fst ` set P" "?y0 \<in> snd ` set P" "?x1 \<in> fst ` set P" "?y1 \<in> snd ` set P"
    by (simp_all only: set_map)
  then have attained: "\<exists>(x, y) \<in> set P. ?x0 = x" "\<exists>(x, y) \<in> set P. ?y0 = y"
    "\<exists>(x, y) \<in> set P. ?x1 = x" "\<exists>(x, y) \<in> set P. ?y1 = y"
    by (force simp: image_iff)+
  show ?thesis
    unfolding e Let_def using bounds attained by (simp only: extent.simps)
qed

theorem pointsExtent_bounds_witness:
  "[(Num 0, PosInf), (Num 2, Num 1)] \<noteq> [] \<and>
   Num 0 \<noteq> NaN \<and> PosInf \<noteq> NaN \<and> Num 2 \<noteq> NaN \<and> Num 1 \<noteq> NaN \<and>
   pointsExtent [(Num 0, PosInf), (Num 2, Num 1)] =
     \<lparr>minX = Num 0, minY = Num 1, maxX = Num 2, maxY = PosInf\<rparr>"
  using pointsExtent_bounds [of "[(Num 0, PosInf), (Num 2, Num 1)]"]
  by (simp add: pointsExtent_def)

text \<open>
  Claim C7. \<open>pointsExtent\<close> applied to the empty point sequence returns the sentinel
  extent with \<open>minX = minY = +Infinity\<close> and \<open>maxX = maxY = -Infinity\<close>; it is a value
  of the function, not an error.
\<close>

theorem pointsExtent_empty:
  "pointsExtent [] = \<lparr>minX = PosInf, minY = PosInf, maxX = NegInf, maxY = NegInf\<rparr>"
  by (simp add: pointsExtent_def)

subsection \<open>\<open>dedupePoints\<close>\<close>

lemma dedupe_loop_fst:
  "fst (dedupe_loop ts ps (seen, ret)) = seen \<union> point_key ts ` set ps"
  by (induction ps arbitrary: seen ret) (auto simp: Let_def)

lemma dedupe_loop_first_occurrences:
  "snd (dedupe_loop ts ps (seen, ret)) =
     ret @ map ((!) ps)
       (filter (\<lambda>i. point_key ts (ps ! i) \<notin> seen \<and>
                     (\<forall>j<i. point_key ts (ps ! j) \<noteq> point_key ts (ps ! i)))
          [0..<length ps])"
proof (induction ps arbitrary: seen ret)
  case Nil
  show ?case by simp
next
  case (Cons p ps)
  have upt: "[0..<length (p # ps)] = 0 # map Suc [0..<length ps]"
    by (simp add: upt_conv_Cons map_Suc_upt del: upt_Suc)
  show ?case
  proof (cases "point_key ts p \<in> seen")
    case True
    then have "snd (dedupe_loop ts (p # ps) (seen, ret)) = snd (dedupe_loop ts ps (seen, ret))"
      by simp
    also have "\<dots> = ret @ map ((!) ps)
       (filter (\<lambda>i. point_key ts (ps ! i) \<notin> seen \<and>
                     (\<forall>j<i. point_key ts (ps ! j) \<noteq> point_key ts (ps ! i)))
          [0..<length ps])"
      by (rule Cons.IH)
    also have "\<dots> = ret @ map ((!) (p # ps))
       (filter (\<lambda>i. point_key ts ((p # ps) ! i) \<notin> seen \<and>
                     (\<forall>j<i. point_key ts ((p # ps) ! j) \<noteq> point_key ts ((p # ps) ! i)))
          [0..<length (p # ps)])"
    proof -
      have "\<And>i. (point_key ts (ps ! i) \<notin> seen \<and> point_key ts p \<noteq> point_key ts (ps ! i) \<and>
                 (\<forall>j<i. point_key ts (ps ! j) \<noteq> point_key ts (ps ! i))) =
             (point_key ts (ps ! i) \<notin> seen \<and>
                 (\<forall>j<i. point_key ts (ps ! j) \<noteq> point_key ts (ps ! i)))"
        using True by auto
      then show ?thesis
        using True unfolding upt by (simp add: filter_map comp_def All_less_Suc2)
    qed
    finally show ?thesis .
  next
    case False
    then have "snd (dedupe_loop ts (p # ps) (seen, ret)) =
        snd (dedupe_loop ts ps (insert (point_key ts p) seen, ret @ [p]))"
      by simp
    also have "\<dots> = (ret @ [p]) @ map ((!) ps)
       (filter (\<lambda>i. point_key ts (ps ! i) \<notin> insert (point_key ts p) seen \<and>
                     (\<forall>j<i. point_key ts (ps ! j) \<noteq> point_key ts (ps ! i)))
          [0..<length ps])"
      by (rule Cons.IH)
    also have "\<dots> = ret @ map ((!) (p # ps))
       (filter (\<lambda>i. point_key ts ((p # ps) ! i) \<notin> seen \<and>
                     (\<forall>j<i. point_key ts ((p # ps) ! j) \<noteq> point_key ts ((p # ps) ! i)))
          [0..<length (p # ps)])"
    proof -
      have "\<And>i. (point_key ts (ps ! i) \<notin> seen \<and> point_key ts p \<noteq> point_key ts (ps ! i) \<and>
                 (\<forall>j<i. point_key ts (ps ! j) \<noteq> point_key ts (ps ! i))) =
             (point_key ts (ps ! i) \<noteq> point_key ts p \<and> point_key ts (ps ! i) \<notin> seen \<and>
                 (\<forall>j<i. point_key ts (ps ! j) \<noteq> point_key ts (ps ! i)))"
        by auto
      then show ?thesis
        using False unfolding upt by (simp add: filter_map comp_def All_less_Suc2)
    qed
    finally show ?thesis .
  qed
qed

lemma dedupe_loop_ret:
  "snd (dedupe_loop ts ps (seen, ret)) = ret @ snd (dedupe_loop ts ps (seen, []))"
  by (simp add: dedupe_loop_first_occurrences [of ts ps seen ret]
      dedupe_loop_first_occurrences [of ts ps seen "[]"])

lemma dedupe_loop_distinct:
  "distinct (map (point_key ts) ret) \<Longrightarrow> point_key ts ` set ret \<subseteq> seen \<Longrightarrow>
   distinct (map (point_key ts) (snd (dedupe_loop ts ps (seen, ret))))"
proof (induction ps arbitrary: seen ret)
  case Nil
  then show ?case by simp
next
  case (Cons p ps)
  show ?case
  proof (cases "point_key ts p \<in> seen")
    case True
    with Cons.IH [OF Cons.prems] show ?thesis by simp
  next
    case False
    have "distinct (map (point_key ts) (ret @ [p]))"
      using Cons.prems False by auto
    moreover have "point_key ts ` set (ret @ [p]) \<subseteq> insert (point_key ts p) seen"
      using Cons.prems by auto
    ultimately show ?thesis
      using False Cons.IH by simp
  qed
qed

lemma dedupe_loop_keep_all:
  "distinct (map (point_key ts) ps) \<Longrightarrow> point_key ts ` set ps \<inter> seen = {} \<Longrightarrow>
   snd (dedupe_loop ts ps (seen, ret)) = ret @ ps"
  by (induction ps arbitrary: seen ret) (auto simp: Let_def)

lemma dedupePoints_subseq: "subseq (dedupePoints ts P) P"
proof -
  let ?Q = "\<lambda>i. point_key ts (P ! i) \<notin> {} \<and> (\<forall>j<i. point_key ts (P ! j) \<noteq> point_key ts (P ! i))"
  have "subseq (map ((!) P) (filter ?Q [0..<length P])) (map ((!) P) [0..<length P])"
    by (intro subseq_map subseq_filter_left)
  then show ?thesis
    by (simp add: dedupePoints_def dedupe_loop_first_occurrences map_nth)
qed

lemma dedupePoints_distinct: "distinct (map (point_key ts) (dedupePoints ts P))"
  unfolding dedupePoints_def by (rule dedupe_loop_distinct) simp_all

lemma dedupe_iter_result:
  assumes "a < length st" "r < length st" "r \<noteq> a"
  shows "dedupe_iter ts a r i seen st =
     Some (st[r := st ! r @ snd (dedupe_loop ts (drop i (st ! a)) (seen, []))])"
  using assms
proof (induction "length (st ! a) - i" arbitrary: i seen st)
  case 0
  then show ?case
    by (subst dedupe_iter.simps) simp
next
  case (Suc n)
  then have i: "i < length (st ! a)" by simp
  let ?p = "st ! a ! i"
  have drop: "drop i (st ! a) = ?p # drop (Suc i) (st ! a)"
    using i by (simp add: Cons_nth_drop_Suc)
  show ?case
  proof (cases "point_key ts ?p \<in> seen")
    case True
    have "n = length (st ! a) - Suc i" using Suc.hyps(2) by simp
    from Suc.hyps(1) [OF this Suc.prems] True i show ?thesis
      by (subst dedupe_iter.simps) (simp add: drop Let_def)
  next
    case False
    let ?st = "push st r ?p"
    have same: "?st ! a = st ! a"
      using Suc.prems by (simp add: push_def)
    have len: "length ?st = length st" by (simp add: push_def)
    have "n = length (?st ! a) - Suc i" using Suc.hyps(2) same by simp
    from Suc.hyps(1) [OF this] Suc.prems len
    have "dedupe_iter ts a r (Suc i) (insert (point_key ts ?p) seen) ?st =
       Some (?st[r := ?st ! r @
          snd (dedupe_loop ts (drop (Suc i) (st ! a)) (insert (point_key ts ?p) seen, []))])"
      by (simp add: same)
    with False i Suc.prems show ?thesis
      by (subst dedupe_iter.simps)
        (simp add: drop push_def Let_def dedupe_loop_ret [of ts _ _ "[?p]"])
  qed
qed

lemma dedupePoints_store_result:
  assumes "a < length st"
  shows "dedupePoints_store ts st a = Some (st @ [dedupePoints ts (st ! a)], length st)"
proof -
  have "dedupe_iter ts a (length st) 0 {} (st @ [[]]) =
     Some ((st @ [[]])[length st := (st @ [[]]) ! length st @
        snd (dedupe_loop ts (drop 0 ((st @ [[]]) ! a)) ({}, []))])"
    using assms by (intro dedupe_iter_result) simp_all
  then show ?thesis
    using assms by (simp add: dedupePoints_store_def new_array_def dedupePoints_def nth_append)
qed


lemma dedupe_loop_2_eq: "dedupe_loop_2 ts ps (seen, ret) = dedupe_loop ts ps (seen, ret)"
  by (induction ps arbitrary: seen ret) (simp_all add: point_key_def Let_def)

lemma dedupePoints_2_result: "fst (dedupePoints_2 ts P) = dedupePoints ts P"
  by (simp add: dedupePoints_2_def dedupePoints_def dedupe_loop_2_eq split: prod.split)

text \<open>
  Claim C8. For every point sequence \<open>P\<close>, \<open>dedupePoints(P)\<close> is a subsequence of
  \<open>P\<close>; no two of its elements have the same coordinate key; it consists of exactly
  the points of \<open>P\<close> at the positions where a key occurs for the first time, in the
  order of \<open>P\<close>; and \<open>P\<close> is not mutated: run on any store that holds \<open>P\<close> under the
  reference \<open>a\<close>, the function returns, every array of the store is as it was, and the
  result is a new array. The second copy returns the same points.
\<close>

theorem dedupePoints_first_occurrences:
  assumes "a < length st" and "st ! a = P"
  shows "subseq (dedupePoints ts P) P \<and>
    distinct (map (point_key ts) (dedupePoints ts P)) \<and>
    dedupePoints ts P =
      map ((!) P)
        (filter (\<lambda>i. \<forall>j<i. point_key ts (P ! j) \<noteq> point_key ts (P ! i)) [0..<length P]) \<and>
    dedupePoints_store ts st a = Some (st @ [dedupePoints ts P], length st) \<and>
    fst (dedupePoints_2 ts P) = dedupePoints ts P"
proof -
  have "dedupePoints ts P =
      map ((!) P)
        (filter (\<lambda>i. \<forall>j<i. point_key ts (P ! j) \<noteq> point_key ts (P ! i)) [0..<length P])"
    by (simp add: dedupePoints_def dedupe_loop_first_occurrences)
  moreover have "dedupePoints_store ts st a = Some (st @ [dedupePoints ts P], length st)"
    using dedupePoints_store_result [OF assms(1), of ts] assms(2) by simp
  ultimately show ?thesis
    using dedupePoints_subseq [of ts P] dedupePoints_distinct [of ts P]
      dedupePoints_2_result [of ts P]
    by blast
qed

theorem dedupePoints_first_occurrences_witness:
  "0 < length [[(Num 0, Num 0), (Num 1, Num 1), (Num 0, Num 0)]] \<and>
   [[(Num 0, Num 0), (Num 1, Num 1), (Num 0, Num 0)]] ! 0 =
     [(Num 0, Num 0), (Num 1, Num 1), (Num 0, Num 0)] \<and>
   dedupePoints (\<lambda>n. if n = Num 0 then ''0'' else ''1'')
     [(Num 0, Num 0), (Num 1, Num 1), (Num 0, Num 0)] = [(Num 0, Num 0), (Num 1, Num 1)] \<and>
   dedupePoints_store (\<lambda>n. if n = Num 0 then ''0'' else ''1'')
     [[(Num 0, Num 0), (Num 1, Num 1), (Num 0, Num 0)]] 0 =
     Some ([[(Num 0, Num 0), (Num 1, Num 1), (Num 0, Num 0)],
            [(Num 0, Num 0), (Num 1, Num 1)]], 1)"
  using dedupePoints_first_occurrences
    [of 0 "[[(Num 0, Num 0), (Num 1, Num 1), (Num 0, Num 0)]]"
        "[(Num 0, Num 0), (Num 1, Num 1), (Num 0, Num 0)]"
        "\<lambda>n. if n = Num 0 then ''0'' else ''1''"]
  by (simp add: dedupePoints_def point_key_def)

text \<open>
  Claim C9. \<open>dedupePoints\<close> is idempotent: for every point sequence \<open>P\<close>,
  \<open>dedupePoints(dedupePoints(P))\<close> equals \<open>dedupePoints(P)\<close>.
\<close>

theorem dedupePoints_idempotent:
  "dedupePoints ts (dedupePoints ts P) = dedupePoints ts P"
  using dedupe_loop_keep_all [of ts "dedupePoints ts P" "{}" "[]"] dedupePoints_distinct [of ts P]
  by (simp add: dedupePoints_def)

subsection \<open>The second copy computes what the first does\<close>

lemma dedupe_loop_keys:
  "point_key ts ` set (snd (dedupe_loop ts ps (seen, ret))) =
   point_key ts ` set ret \<union> (point_key ts ` set ps - seen)"
proof (induction ps arbitrary: seen ret)
  case Nil
  show ?case by simp
next
  case (Cons p ps)
  show ?case
  proof (cases "point_key ts p \<in> seen")
    case True
    then show ?thesis
      using Cons.IH [of seen ret] by auto
  next
    case False
    then show ?thesis
      using Cons.IH [of "insert (point_key ts p) seen" "ret @ [p]"] by auto
  qed
qed

lemma extent_loop_2_eq: "extent_loop_2 ps bnd = extent_loop ps bnd"
  by (induction ps bnd rule: extent_loop.induct) simp_all

lemma pointsExtent_2_eq: "pointsExtent_2 P = pointsExtent P"
  by (simp add: pointsExtent_2_def pointsExtent_def extent_loop_2_eq)

lemma scalePoints_2_eq: "scalePoints_2 P w h ox oy = scalePoints P w h ox oy"
  by (simp add: scalePoints_2_def scalePoints_def pointsExtent_2_eq)

lemma new_Test_result: "fst (new_Test ev ret pth d) = new_TestFile ev ret pth d"
  by (simp add: new_Test_def new_TestFile_def pointsExtent_2_eq dedupePoints_2_result [symmetric]
      split: json.split property.split prod.split)

lemma collectFiles_2_eq:
  "collectFiles_2 dir sub = collectFiles dir sub"
  "collect_children_2 dir ents = collect_children dir ents"
  by (induction dir sub and dir ents rule: collectFiles_collect_children.induct)
    (simp_all split: sum.split)

lemma loadFile_2_result: "fst (loadFile_2 ev pth d) = loadFile ev pth d"
  by (simp add: loadFile_2_def loadFile_def new_Test_result split: option.split)

lemma load_each_2_result: "fst (load_each_2 ev d ps) = load_each ev d ps"
proof (induction ps)
  case Nil
  show ?case by simp
next
  case (Cons p ps)
  then show ?case
    using loadFile_2_result [of ev p d]
    by (cases "loadFile_2 ev p d"; cases "load_each_2 ev d ps")
      (auto split: sum.splits)
qed

lemma loadTests_2_result: "fst (loadTests_2 ev a d) = loadTests ev a d"
proof (cases "collectFiles (relapath ev ''./files'') (readdirSync ev)")
  case (Inl e)
  then show ?thesis
    by (simp add: loadTests_2_def loadTests_def collectFiles_2_eq)
next
  case (Inr paths)
  let ?d = "case d of None \<Rightarrow> False | Some b \<Rightarrow> b"
  obtain r out where r: "load_each_2 ev ?d paths = (r, out)"
    by (cases "load_each_2 ev ?d paths")
  then have "load_each ev ?d paths = r"
    using load_each_2_result [of ev ?d paths] by simp
  with Inr r show ?thesis
    by (cases r) (simp_all add: loadTests_2_def loadTests_def collectFiles_2_eq)
qed

lemma findTest_2_eq: "findTest_2 tests nm = findTest tests nm"
  by (simp add: findTest_2_def findTest_def)

lemma str_includes_sublist: "str_includes s sub = sublist sub s"
  by (induction s) (auto simp: sublist_Cons_right)

lemma load_each_Inr_map:
  "load_each ev d ps = Inr ts \<Longrightarrow> map (\<lambda>p. loadFile ev p d) ps = map Inr ts"
  by (induction ps arbitrary: ts) (auto split: sum.splits)

lemma load_each_map_Inr:
  "map (\<lambda>p. loadFile ev p d) ps = map Inr ts \<Longrightarrow> load_each ev d ps = Inr ts"
  by (induction ps arbitrary: ts) auto

lemma load_each_Inl:
  "p \<in> set ps \<Longrightarrow> loadFile ev p d = Inl e \<Longrightarrow> \<exists>e'. load_each ev d ps = Inl e'"
  by (induction ps) (auto split: sum.splits)

subsection \<open>\<open>scalePoints\<close>\<close>
















subsection \<open>\<open>findTest\<close>\<close>

text \<open>
  Claim C5. For every sequence of Test Records and every search string, \<open>findTest\<close>
  returns the first record, in the order of the sequence, whose name contains the
  search string as a substring; when no name contains it, the result is the value
  \<open>undefined\<close>, not an exception. Both copies do the same.
\<close>

theorem findTest_first_match:
  "((\<forall>t \<in> set tests. \<not> sublist nm (name t)) \<longrightarrow> findTest tests nm = None) \<and>
   ((\<exists>t \<in> set tests. sublist nm (name t)) \<longrightarrow>
      (\<exists>i<length tests. findTest tests nm = Some (tests ! i) \<and>
          sublist nm (name (tests ! i)) \<and>
          (\<forall>j<i. \<not> sublist nm (name (tests ! j))))) \<and>
   findTest_2 tests nm = findTest tests nm"
proof (intro conjI impI)
  assume "\<forall>t \<in> set tests. \<not> sublist nm (name t)"
  then show "findTest tests nm = None"
    by (simp add: findTest_def find_None_iff str_includes_sublist)
next
  assume "\<exists>t \<in> set tests. sublist nm (name t)"
  then have "findTest tests nm \<noteq> None"
    by (auto simp: findTest_def find_None_iff str_includes_sublist)
  then obtain t where "find (\<lambda>t. str_includes (name t) nm) tests = Some t"
    by (auto simp: findTest_def)
  then obtain i where "i < length tests" "str_includes (name (tests ! i)) nm" "t = tests ! i"
    "\<forall>j<i. \<not> str_includes (name (tests ! j)) nm"
    unfolding find_Some_iff by blast
  then show "\<exists>i<length tests. findTest tests nm = Some (tests ! i) \<and>
          sublist nm (name (tests ! i)) \<and> (\<forall>j<i. \<not> sublist nm (name (tests ! j)))"
    using \<open>find (\<lambda>t. str_includes (name t) nm) tests = Some t\<close>
    by (auto simp: findTest_def str_includes_sublist)
next
  show "findTest_2 tests nm = findTest tests nm"
    by (rule findTest_2_eq)
qed

theorem findTest_first_match_witness:
  "(\<exists>t \<in> set [\<lparr>points = [], edges = Value [], source = None, error = None,
                   name = ''simple/square.json'',
                   extent = \<lparr>minX = PosInf, minY = PosInf, maxX = NegInf, maxY = NegInf\<rparr>\<rparr>,
                 \<lparr>points = [], edges = Value [], source = None, error = None,
                   name = ''other/square.json'',
                   extent = \<lparr>minX = PosInf, minY = PosInf, maxX = NegInf, maxY = NegInf\<rparr>\<rparr>].
       sublist ''square'' (name t)) \<and>
   findTest [\<lparr>points = [], edges = Value [], source = None, error = None,
               name = ''simple/square.json'',
               extent = \<lparr>minX = PosInf, minY = PosInf, maxX = NegInf, maxY = NegInf\<rparr>\<rparr>,
             \<lparr>points = [], edges = Value [], source = None, error = None,
               name = ''other/square.json'',
               extent = \<lparr>minX = PosInf, minY = PosInf, maxX = NegInf, maxY = NegInf\<rparr>\<rparr>]
       ''square'' =
     Some \<lparr>points = [], edges = Value [], source = None, error = None,
            name = ''simple/square.json'',
            extent = \<lparr>minX = PosInf, minY = PosInf, maxX = NegInf, maxY = NegInf\<rparr>\<rparr> \<and>
   findTest [\<lparr>points = [], edges = Value [], source = None, error = None,
               name = ''simple/square.json'',
               extent = \<lparr>minX = PosInf, minY = PosInf, maxX = NegInf, maxY = NegInf\<rparr>\<rparr>]
       ''circle'' = None"
proof -
  let ?e = "\<lparr>minX = PosInf, minY = PosInf, maxX = NegInf, maxY = NegInf\<rparr>"
  let ?t1 = "\<lparr>points = [], edges = Value [], source = None, error = None,
               name = ''simple/square.json'', extent = ?e\<rparr>"
  let ?t2 = "\<lparr>points = [], edges = Value [], source = None, error = None,
               name = ''other/square.json'', extent = ?e\<rparr>"
  have found: "\<exists>t \<in> set [?t1, ?t2]. sublist ''square'' (name t)"
    by (simp add: str_includes_sublist [symmetric])
  have none: "\<forall>t \<in> set [?t1]. \<not> sublist ''circle'' (name t)"
    by (simp add: str_includes_sublist [symmetric])
  from findTest_first_match [of "[?t1, ?t2]" "''square''"] found
  obtain i where "i < length [?t1, ?t2]" "findTest [?t1, ?t2] ''square'' = Some ([?t1, ?t2] ! i)"
    "\<forall>j<i. \<not> sublist ''square'' (name ([?t1, ?t2] ! j))"
    by blast
  moreover have "sublist ''square'' (name ([?t1, ?t2] ! 0))"
    by (simp add: str_includes_sublist [symmetric])
  ultimately have "findTest [?t1, ?t2] ''square'' = Some ?t1"
    by (cases i) auto
  moreover from findTest_first_match [of "[?t1]" "''circle''"] none
  have "findTest [?t1] ''circle'' = None" by blast
  ultimately show ?thesis using found by blast
qed

subsection \<open>Test records\<close>

text \<open>
  Claim C3. For every raw fixture and every value of the \<open>dedupe\<close> flag, the extent
  of the constructed record is \<open>pointsExtent\<close> of the original points, not of the
  de-duplicated ones, and its edges are the raw edges as they were. The record built
  with the other flag has the same extent and the same edges: the two differ in
  \<open>points\<close> at most. The class \<open>Test\<close> of the second copy builds the same records.
\<close>

theorem record_extent_and_edges:
  assumes "new_TestFile ev ret pth d = Inr t"
  shows "\<exists>raw P. ret = JObject raw \<and> raw_points raw = Value P \<and>
      extent t = pointsExtent P \<and> edges t = raw_edges raw \<and>
      points t = (if d then dedupePoints (number_toString ev) P else P) \<and>
      fst (new_Test ev ret pth d) = Inr t \<and>
      (\<forall>d'. \<exists>t'. new_TestFile ev ret pth d' = Inr t' \<and> fst (new_Test ev ret pth d') = Inr t' \<and>
          extent t' = extent t \<and> edges t' = edges t \<and> t' = t\<lparr>points := points t'\<rparr>)"
proof -
  from assms obtain raw where raw: "ret = JObject raw"
    by (cases ret) (simp_all add: new_TestFile_def)
  from assms raw obtain P where P: "raw_points raw = Value P"
    by (cases "raw_points raw") (simp_all add: new_TestFile_def)
  have t: "t = \<lparr>points = (if d then dedupePoints (number_toString ev) P else P),
      edges = raw_edges raw, source = default_null (raw_source raw),
      error = default_null (raw_error raw), name = test_name ev pth,
      extent = pointsExtent P\<rparr>"
    using assms raw P by (simp add: new_TestFile_def)
  have "\<exists>t'. new_TestFile ev ret pth d' = Inr t' \<and> fst (new_Test ev ret pth d') = Inr t' \<and>
      extent t' = extent t \<and> edges t' = edges t \<and> t' = t\<lparr>points := points t'\<rparr>" for d'
    unfolding new_Test_result by (simp add: new_TestFile_def raw P t)
  then show ?thesis
    using raw P assms by (simp add: new_Test_result) (simp add: t)
qed

theorem record_extent_and_edges_witness:
  "new_TestFile
     (example_env ''{\"points\":[[0,0],[0,0],[1,1]],\"edges\":[[0,2]]}''
        (JObject \<lparr>raw_points = Value [(Num 0, Num 0), (Num 0, Num 0), (Num 1, Num 1)],
                   raw_edges = Value [(0, 2)], raw_source = Absent, raw_error = Absent\<rparr>))
     (JObject \<lparr>raw_points = Value [(Num 0, Num 0), (Num 0, Num 0), (Num 1, Num 1)],
               raw_edges = Value [(0, 2)], raw_source = Absent, raw_error = Absent\<rparr>)
     ''file:///repo/files/a.json'' True =
   Inr \<lparr>points = [(Num 0, Num 0), (Num 1, Num 1)], edges = Value [(0, 2)],
        source = None, error = None, name = ''a.json'',
        extent = \<lparr>minX = Num 0, minY = Num 0, maxX = Num 1, maxY = Num 1\<rparr>\<rparr> \<and>
   pointsExtent [(Num 0, Num 0), (Num 0, Num 0), (Num 1, Num 1)] =
     \<lparr>minX = Num 0, minY = Num 0, maxX = Num 1, maxY = Num 1\<rparr>"
proof -
  let ?raw = "\<lparr>raw_points = Value [(Num 0, Num 0), (Num 0, Num 0), (Num 1, Num 1)],
               raw_edges = Value [(0, 2)], raw_source = Absent, raw_error = Absent\<rparr>"
  let ?ev = "example_env ''{\"points\":[[0,0],[0,0],[1,1]],\"edges\":[[0,2]]}'' (JObject ?raw)"
  let ?t = "\<lparr>points = [(Num 0, Num 0), (Num 1, Num 1)], edges = Value [(0, 2)],
        source = None, error = None, name = ''a.json'',
        extent = \<lparr>minX = Num 0, minY = Num 0, maxX = Num 1, maxY = Num 1\<rparr>\<rparr>"
  have built: "new_TestFile ?ev (JObject ?raw) ''file:///repo/files/a.json'' True = Inr ?t"
    by (simp add: new_TestFile_def example_env_def dedupePoints_def point_key_def
        pointsExtent_def default_null_def test_name_def replace_backslashes_def)
  from record_extent_and_edges [OF built]
  have "extent ?t = pointsExtent [(Num 0, Num 0), (Num 0, Num 0), (Num 1, Num 1)]"
    by auto
  with built show ?thesis by simp
qed

subsection \<open>\<open>loadFile\<close> and \<open>loadTests\<close>\<close>

text \<open>
  Claim C2 as stated fails: a fixture with \<open>points\<close> and without \<open>edges\<close> is built
  into a record, whose \<open>edges\<close> is \<open>undefined\<close>, and the load returns it.
\<close>

theorem missing_edges_counterexample:
  "loadFile
     (example_env ''{\"points\":[]}''
        (JObject \<lparr>raw_points = Value [], raw_edges = Absent,
                   raw_source = Absent, raw_error = Absent\<rparr>))
     ''file:///repo/files/a.json'' False =
   Inr \<lparr>points = [], edges = Absent, source = None, error = None, name = ''a.json'',
        extent = \<lparr>minX = PosInf, minY = PosInf, maxX = NegInf, maxY = NegInf\<rparr>\<rparr> \<and>
   loadTests
     (example_env ''{\"points\":[]}''
        (JObject \<lparr>raw_points = Value [], raw_edges = Absent,
                   raw_source = Absent, raw_error = Absent\<rparr>))
     (Some False) (Some False) =
   Inr [\<lparr>points = [], edges = Absent, source = None, error = None, name = ''a.json'',
         extent = \<lparr>minX = PosInf, minY = PosInf, maxX = NegInf, maxY = NegInf\<rparr>\<rparr>]"
  by (simp add: loadTests_def loadFile_def new_TestFile_def example_env_def pointsExtent_def
      default_null_def test_name_def replace_backslashes_def truthy_def)

text \<open>
  Claim C2, amended. Building a record from the text of a file fails with a
  \<open>SyntaxError\<close> when the text is not valid JSON, and with a \<open>TypeError\<close> when the
  value is \<open>null\<close> or its \<open>points\<close> is missing (absent or \<open>null\<close>); when a walked
  file fails so, \<open>loadTests\<close> fails. When \<open>points\<close> is present the construction
  succeeds, whether or not \<open>edges\<close> is: the record's \<open>edges\<close> is what the fixture
  had, and an absent \<open>source\<close> or \<open>error\<close> is \<open>null\<close> in the record.
\<close>

theorem loadFile_failures:
  assumes "readFileSync ev pth = Some text"
  shows
    "(JSON_parse ev text = None \<longrightarrow> loadFile ev pth d = Inl SyntaxError) \<and>
     (JSON_parse ev text = Some JNull \<longrightarrow> loadFile ev pth d = Inl TypeError) \<and>
     (\<forall>raw. JSON_parse ev text = Some (JObject raw) \<longrightarrow>
        (raw_points raw = Absent \<or> raw_points raw = Null \<longrightarrow>
           loadFile ev pth d = Inl TypeError) \<and>
        (\<forall>P. raw_points raw = Value P \<longrightarrow>
           (\<exists>t. loadFile ev pth d = Inr t \<and> edges t = raw_edges raw \<and>
                (raw_source raw = Absent \<longrightarrow> source t = None) \<and>
                (raw_error raw = Absent \<longrightarrow> error t = None)))) \<and>
     (\<forall>paths e. collectFiles (relapath ev ''./files'') (readdirSync ev) = Inr paths \<and>
          pth \<in> set paths \<and> loadFile ev pth d = Inl e \<longrightarrow>
        (\<exists>e'. loadTests ev a (Some d) = Inl e'))"
proof (intro conjI allI impI)
  fix paths e
  assume "collectFiles (relapath ev ''./files'') (readdirSync ev) = Inr paths \<and>
          pth \<in> set paths \<and> loadFile ev pth d = Inl e"
  then have walk: "collectFiles (relapath ev ''./files'') (readdirSync ev) = Inr paths"
    and "\<exists>e'. load_each ev d paths = Inl e'"
    using load_each_Inl [of pth paths ev d e] by simp_all
  then show "\<exists>e'. loadTests ev a (Some d) = Inl e'"
    by (auto simp: loadTests_def)
qed (use assms in \<open>auto simp: loadFile_def new_TestFile_def default_null_def\<close>)

theorem loadFile_failures_witness:
  "readFileSync
     (example_env ''{\"edges\":[]}''
        (JObject \<lparr>raw_points = Absent, raw_edges = Value [],
                   raw_source = Absent, raw_error = Absent\<rparr>))
     ''file:///repo/files/a.json'' = Some ''{\"edges\":[]}'' \<and>
   loadFile
     (example_env ''{\"edges\":[]}''
        (JObject \<lparr>raw_points = Absent, raw_edges = Value [],
                   raw_source = Absent, raw_error = Absent\<rparr>))
     ''file:///repo/files/a.json'' False = Inl TypeError \<and>
   (\<exists>e. loadTests
     (example_env ''{\"edges\":[]}''
        (JObject \<lparr>raw_points = Absent, raw_edges = Value [],
                   raw_source = Absent, raw_error = Absent\<rparr>))
     None (Some False) = Inl e)"
proof -
  let ?raw = "\<lparr>raw_points = Absent, raw_edges = Value [],
                raw_source = Absent, raw_error = Absent\<rparr>"
  let ?ev = "example_env ''{\"edges\":[]}'' (JObject ?raw)"
  have read: "readFileSync ?ev ''file:///repo/files/a.json'' = Some ''{\"edges\":[]}''"
    by (simp add: example_env_def)
  have parse: "JSON_parse ?ev ''{\"edges\":[]}'' = Some (JObject ?raw)"
    by (simp add: example_env_def)
  have walk: "collectFiles (relapath ?ev ''./files'') (readdirSync ?ev) =
      Inr [''file:///repo/files/a.json'']"
    by (simp add: example_env_def)
  note inst = loadFile_failures [OF read, of False None]
  from inst parse have fail: "loadFile ?ev ''file:///repo/files/a.json'' False = Inl TypeError"
    by simp
  with inst walk have "\<exists>e. loadTests ?ev None (Some False) = Inl e"
    by (metis list.set_intros(1))
  with read fail show ?thesis by blast
qed

text \<open>
  Claim C1 as stated fails: the filter is \<open>!test.error\<close>, and the empty string is
  false. A record whose \<open>error\<close> is the empty string, not \<open>null\<close>, is returned by
  \<open>loadTests\<close> with \<open>allowErrors\<close> false.
\<close>

theorem empty_error_counterexample:
  "loadTests
     (example_env ''{\"points\":[],\"edges\":[],\"error\":\"\"}''
        (JObject \<lparr>raw_points = Value [], raw_edges = Value [],
                   raw_source = Absent, raw_error = Value ''''\<rparr>))
     (Some False) (Some False) =
   Inr [\<lparr>points = [], edges = Value [], source = None, error = Some '''', name = ''a.json'',
         extent = \<lparr>minX = PosInf, minY = PosInf, maxX = NegInf, maxY = NegInf\<rparr>\<rparr>]"
  by (simp add: loadTests_def loadFile_def new_TestFile_def example_env_def pointsExtent_def
      default_null_def test_name_def replace_backslashes_def truthy_def)

text \<open>
  Claim C1, amended. When the walk succeeds and every walked file builds a record,
  \<open>loadTests\<close> with \<open>allowErrors\<close> true returns all these records, in the order of the
  walk, those with a non-null \<open>error\<close> included; with \<open>allowErrors\<close> false (or left
  out) it returns, of these records, those whose \<open>error\<close> is \<open>null\<close> or the empty
  string, and so no record whose \<open>error\<close> is a non-empty string. Both copies do the
  same.
\<close>

theorem loadTests_filter:
  assumes "collectFiles (relapath ev ''./files'') (readdirSync ev) = Inr paths"
    and "map (\<lambda>p. loadFile ev p d) paths = map Inr ret"
  shows "loadTests ev (Some True) (Some d) = Inr ret \<and>
    loadTests ev (Some False) (Some d) =
      Inr (filter (\<lambda>t. error t = None \<or> error t = Some []) ret) \<and>
    loadTests ev None (Some d) = loadTests ev (Some False) (Some d) \<and>
    fst (loadTests_2 ev (Some True) (Some d)) = Inr ret \<and>
    fst (loadTests_2 ev (Some False) (Some d)) =
      Inr (filter (\<lambda>t. error t = None \<or> error t = Some []) ret)"
proof -
  have built: "load_each ev d paths = Inr ret"
    using assms(2) by (rule load_each_map_Inr)
  have falsy: "(\<lambda>t. \<not> truthy (error t)) = (\<lambda>t. error t = None \<or> error t = Some [])"
    by (rule ext) (auto simp: truthy_def split: option.splits)
  show ?thesis
    unfolding loadTests_2_result
    by (simp add: loadTests_def assms(1) built falsy)
qed

theorem loadTests_filter_witness:
  "collectFiles
     (relapath (example_env ''{\"points\":[],\"edges\":[],\"error\":\"no\"}''
        (JObject \<lparr>raw_points = Value [], raw_edges = Value [],
                   raw_source = Absent, raw_error = Value ''no''\<rparr>)) ''./files'')
     (readdirSync (example_env ''{\"points\":[],\"edges\":[],\"error\":\"no\"}''
        (JObject \<lparr>raw_points = Value [], raw_edges = Value [],
                   raw_source = Absent, raw_error = Value ''no''\<rparr>))) =
     Inr [''file:///repo/files/a.json''] \<and>
   loadTests
     (example_env ''{\"points\":[],\"edges\":[],\"error\":\"no\"}''
        (JObject \<lparr>raw_points = Value [], raw_edges = Value [],
                   raw_source = Absent, raw_error = Value ''no''\<rparr>))
     (Some True) (Some False) =
     Inr [\<lparr>points = [], edges = Value [], source = None, error = Some ''no'',
           name = ''a.json'',
           extent = \<lparr>minX = PosInf, minY = PosInf, maxX = NegInf, maxY = NegInf\<rparr>\<rparr>] \<and>
   loadTests
     (example_env ''{\"points\":[],\"edges\":[],\"error\":\"no\"}''
        (JObject \<lparr>raw_points = Value [], raw_edges = Value [],
                   raw_source = Absent, raw_error = Value ''no''\<rparr>))
     (Some False) (Some False) = Inr []"
proof -
  let ?ev = "example_env ''{\"points\":[],\"edges\":[],\"error\":\"no\"}''
        (JObject \<lparr>raw_points = Value [], raw_edges = Value [],
                   raw_source = Absent, raw_error = Value ''no''\<rparr>)"
  let ?t = "\<lparr>points = [], edges = Value [], source = None, error = Some ''no'',
           name = ''a.json'',
           extent = \<lparr>minX = PosInf, minY = PosInf, maxX = NegInf, maxY = NegInf\<rparr>\<rparr>"
  have walk: "collectFiles (relapath ?ev ''./files'') (readdirSync ?ev) =
      Inr [''file:///repo/files/a.json'']"
    by (simp add: example_env_def)
  have built: "map (\<lambda>p. loadFile ?ev p False) [''file:///repo/files/a.json''] = map Inr [?t]"
    by (simp add: loadFile_def new_TestFile_def example_env_def pointsExtent_def
        default_null_def test_name_def replace_backslashes_def)
  from loadTests_filter [OF walk built] walk show ?thesis
    by simp
qed

subsection \<open>The two copies\<close>

text \<open>
  Claim C10. The two copies of the module agree: \<open>dedupePoints\<close>, \<open>pointsExtent\<close> and
  \<open>scalePoints\<close> of the second copy return what those of the first return, and the
  classes \<open>Test\<close> and \<open>TestFile\<close> build the same record (or throw the same error) from
  the same raw fixture, path and \<open>dedupe\<close> flag. The second copy's \<open>dedupePoints\<close>
  also writes the number of dropped points to the console.
\<close>

theorem copies_agree:
  "fst (dedupePoints_2 ts P) = dedupePoints ts P \<and>
   snd (dedupePoints_2 ts P) = [(''dup'', int (length P) - int (length (dedupePoints ts P)))] \<and>
   pointsExtent_2 P = pointsExtent P \<and>
   scalePoints_2 P w h ox oy = scalePoints P w h ox oy \<and>
   fst (new_Test ev ret pth d) = new_TestFile ev ret pth d"
proof -
  have "card (fst (dedupe_loop ts P ({}, []))) = length (dedupePoints ts P)"
  proof -
    have "point_key ts ` set (dedupePoints ts P) = point_key ts ` set P"
      unfolding dedupePoints_def by (simp add: dedupe_loop_keys)
    then have "fst (dedupe_loop ts P ({}, [])) = set (map (point_key ts) (dedupePoints ts P))"
      by (simp add: dedupe_loop_fst)
    then show ?thesis
      using distinct_card [OF dedupePoints_distinct [of ts P]] by simp
  qed
  then have "snd (dedupePoints_2 ts P) =
      [(''dup'', int (length P) - int (length (dedupePoints ts P)))]"
    by (cases "dedupe_loop ts P ({}, [])") (simp add: dedupePoints_2_def dedupe_loop_2_eq)
  then show ?thesis
    using dedupePoints_2_result [of ts P] pointsExtent_2_eq [of P]
      scalePoints_2_eq [of P w h ox oy] new_Test_result [of ev ret pth d]
    by blast
qed

end
